theory Spec2Isabelle
  imports Complex_Main "HOL-Library.AList" "HOL-Library.Option_ord"
begin

section \<open>Python strings\<close>

text \<open>
  The classifier of \<^verbatim>\<open>ml_module/classifier.py\<close> works on Python \<^verbatim>\<open>str\<close> values.
  A \<^typ>\<open>string\<close> stands for a \<^verbatim>\<open>str\<close> whose code points are all below 256: the
  character \<open>c\<close> is the code point \<open>of_char c\<close>, and \<open>length\<close> counts code points as
  \<^verbatim>\<open>len\<close> does. On this range the builtins used by the classifier are as follows.
\<close>

text \<open>
  \<^verbatim>\<open>str.isspace\<close>, \<^verbatim>\<open>str.split()\<close>, \<^verbatim>\<open>str.strip()\<close> and the class \<^verbatim>\<open>\s\<close> of \<^verbatim>\<open>re\<close> agree on
  what white space is: U+0009..U+000D, U+001C..U+001F, U+0020, U+0085 and U+00A0.
\<close>

definition py_isspace :: "char \<Rightarrow> bool" where
  "py_isspace c = (of_char c \<in> {9, 10, 11, 12, 13, 28, 29, 30, 31, 32, 133, 160 :: nat})"

text \<open>
  \<^verbatim>\<open>str.lower\<close>: the upper-case letters below 256 are A..Z and U+00C0..U+00DE without
  the multiplication sign U+00D7; each is 32 below its lower-case letter.
\<close>

definition lower_char :: "char \<Rightarrow> char" where
  "lower_char c =
     (let n = of_char c :: nat
      in if (65 \<le> n \<and> n \<le> 90) \<or> (192 \<le> n \<and> n \<le> 222 \<and> n \<noteq> 215)
         then char_of (n + 32) else c)"

definition lower :: "string \<Rightarrow> string" where
  "lower text = map lower_char text"

text \<open>\<^verbatim>\<open>text.strip()\<close> drops the white space at both ends.\<close>

definition strip :: "string \<Rightarrow> string" where
  "strip text = rev (dropWhile py_isspace (rev (dropWhile py_isspace text)))"

text \<open>
  \<^verbatim>\<open>text.split()\<close>: skip white space, take the characters up to the next white space as
  one word, and go on behind it; no empty word is produced.
\<close>

function split :: "string \<Rightarrow> string list" where
  "split text =
     (case dropWhile py_isspace text of
        [] \<Rightarrow> []
      | c # cs \<Rightarrow> (c # takeWhile (\<lambda>x. \<not> py_isspace x) cs)
                  # split (dropWhile (\<lambda>x. \<not> py_isspace x) cs))"
  by pat_completeness auto
termination
proof (relation "measure length")
  show "wf (measure length)" by simp
next
  fix s :: string and c cs
  assume a: "dropWhile py_isspace s = c # cs"
  have "length (dropWhile (\<lambda>x. \<not> py_isspace x) cs) \<le> length cs"
    by (rule length_dropWhile_le)
  moreover have "length (c # cs) \<le> length s"
    using length_dropWhile_le [of py_isspace s] a by simp
  ultimately show "(dropWhile (\<lambda>x. \<not> py_isspace x) cs, s) \<in> measure length"
    by simp
qed

declare split.simps [simp del]

text \<open>\<^verbatim>\<open>' '.join(words)\<close>\<close>

fun join :: "string list \<Rightarrow> string" where
  "join [] = []"
| "join [w] = w"
| "join (w # v # ws) = w @ CHR '' '' # join (v # ws)"

text \<open>\<^verbatim>\<open>keyword in text\<close>: the keyword occurs in the text as a contiguous substring.\<close>

fun startswith :: "string \<Rightarrow> string \<Rightarrow> bool" where
  "startswith text [] = True"
| "startswith [] (k # ks) = False"
| "startswith (c # cs) (k # ks) = (c = k \<and> startswith cs ks)"

fun py_in :: "string \<Rightarrow> string \<Rightarrow> bool" where
  "py_in keyword [] = (keyword = [])"
| "py_in keyword (c # cs) = (startswith (c # cs) keyword \<or> py_in keyword cs)"

section \<open>Text normalisation\<close>

text \<open>
  \<^verbatim>\<open>re.sub(r'[^a-z0-9\s]', ' ', text)\<close> replaces each character that is neither a
  lower-case ASCII letter, nor an ASCII digit, nor white space by one space.
\<close>

definition is_az :: "char \<Rightarrow> bool" where
  "is_az c = (97 \<le> (of_char c :: nat) \<and> (of_char c :: nat) \<le> 122)"

definition is_09 :: "char \<Rightarrow> bool" where
  "is_09 c = (48 \<le> (of_char c :: nat) \<and> (of_char c :: nat) \<le> 57)"

definition sub_special :: "string \<Rightarrow> string" where
  "sub_special text =
     map (\<lambda>c. if is_az c \<or> is_09 c \<or> py_isspace c then c else CHR '' '') text"

definition preprocess_text :: "string \<Rightarrow> string" where
  "preprocess_text text = join (split (sub_special (lower text)))"

section \<open>Exceptions\<close>

text \<open>
  The subclasses of \<^verbatim>\<open>Exception\<close> that the module can meet; \<open>Raised name\<close> is any
  other one, raised inside scikit-learn or joblib. A function that can raise returns a
  value of \<open>exn + 'a\<close>, with \<open>Inl\<close> for the exception.
\<close>

datatype exn = ValueError | KeyError | AttributeError | Raised string

section \<open>The keyword fallback\<close>

text \<open>
  The two module-level dictionaries. A \<^verbatim>\<open>dict\<close> keeps its keys in insertion order, so it
  is an association list; \<^verbatim>\<open>d[k] = v\<close> is \<^const>\<open>AList.update\<close>, which overwrites in place
  or appends, and \<^verbatim>\<open>d.get(k)\<close> is \<^const>\<open>map_of\<close>, with \<open>None\<close> for Python's \<^verbatim>\<open>None\<close>.
\<close>

definition CATEGORY_KEYWORDS :: "(string \<times> string list) list" where
  "CATEGORY_KEYWORDS =
    [(''Electricity'',
       [''electricity'', ''power'', ''light'', ''electric'', ''voltage'', ''transformer'',
        ''pole'', ''wire'', ''current'', ''blackout'', ''outage'', ''meter'', ''bill'',
        ''street light'', ''lamp'', ''bulb'', ''connection'', ''shock'']),
     (''Water Supply'',
       [''water'', ''supply'', ''pipe'', ''leak'', ''drainage'', ''sewage'', ''tap'',
        ''pipeline'', ''drinking water'', ''tank'', ''bore'', ''pump'', ''pressure'',
        ''contaminated'', ''dirty'', ''overflow'', ''blockage'', ''clog'']),
     (''Road & Transport'',
       [''road'', ''street'', ''pothole'', ''traffic'', ''signal'', ''transport'',
        ''footpath'', ''pavement'', ''crossing'', ''highway'', ''pathway'', ''jam'',
        ''congestion'', ''sign'', ''divider'', ''crack'', ''damage'', ''repair'']),
     (''Cleanliness'',
       [''garbage'', ''waste'', ''trash'', ''dirty'', ''cleanliness'', ''dustbin'',
        ''sanitation'', ''litter'', ''dump'', ''smell'', ''hygiene'', ''sweeping'',
        ''cleaning'', ''stink'', ''odor'', ''filth'', ''rubble'', ''debris'']),
     (''Noise'',
       [''noise'', ''sound'', ''loud'', ''disturbance'', ''Speaker'', ''music'',
        ''construction'', ''pollution'', ''volume'', ''shouting'', ''party'', ''horn'',
        ''siren'', ''barking'', ''disturb'', ''quiet'']),
     (''Other'',
       [''other'', ''miscellaneous'', ''general'', ''complaint'', ''issue'', ''problem''])]"

definition TRAINING_DATA :: "(string \<times> string list) list" where
  "TRAINING_DATA =
    [(''Electricity'',
       [''There is no street light in our area for the past week'',
        ''Power outage happening daily since last month'',
        ''Electric pole wire is broken and hanging dangerously'',
        ''Transformer is making buzzing noise and sparking'',
        ''Street lights not working at night causing safety issues'',
        ''High electricity bill despite low usage'',
        ''Voltage fluctuation damaging home appliances'',
        ''Electric meter is faulty and needs replacement'',
        ''No power supply for 3 days in our locality'',
        ''Damaged electric wire near children's park'']),
     (''Water Supply'',
       [''No water supply for past 3 days in our area'',
        ''Water pipeline is leaking on the main road'',
        ''Dirty contaminated water coming from taps'',
        ''Drainage overflow causing health hazard'',
        ''Water pressure is very low cannot fill tanks'',
        ''Sewage blockage in our street smelling bad'',
        ''Broken water pipe wasting water'', ''No drinking water facility in the area'',
        ''Water tank is overflowing for days'', ''Underground water leakage damaging road'']),
     (''Road & Transport'',
       [''Large pothole on main road causing accidents'',
        ''Traffic signal not working at busy intersection'',
        ''Road is completely damaged needs urgent repair'',
        ''Footpath is broken elderly people falling'',
        ''Missing road signs causing confusion'', ''Heavy traffic jam every morning'',
        ''Zebra crossing paint has faded not visible'',
        ''Speed breaker is too high damaging vehicles'',
        ''Road divider is broken dangerous for drivers'',
        ''Street has multiple cracks needs resurfacing'']),
     (''Cleanliness'',
       [''Garbage not collected for a week piling up'',
        ''Dustbins are overflowing attracting flies'',
        ''People dumping waste on roadside'',
        ''Bad smell from garbage near residential area'',
        ''No waste collection in our locality'',
        ''Stray animals spreading garbage everywhere'',
        ''Open drain is full of trash causing blockage'',
        ''Construction debris dumped on road'', ''Littering problem in public park'',
        ''Sanitation workers not cleaning streets'']),
     (''Noise'',
       [''Loud music from neighbor every night'',
        ''Construction noise starting at 6 AM daily'',
        ''DJ sound system disturbing whole colony'',
        ''Factory noise pollution throughout day'', ''Barking dogs not letting us sleep'',
        ''Party noise till late night'', ''Horn honking near hospital zone'',
        ''Loud speaker announcements disturbing studies'',
        ''Noisy generator running all night'', ''Vehicle modification causing loud sound'']),
     (''Other'',
       [''General inquiry about municipal services'', ''Request for information'',
        ''Feedback on recent improvements'', ''Suggestion for area development'',
        ''Appreciation for good work'', ''Question about upcoming projects'',
        ''Request for new facility'', ''Complaint about undefined issue'',
        ''General grievance redressal'', ''Miscellaneous concern''])]"

text \<open>\<^verbatim>\<open>sum(1 for keyword in keywords if keyword in text_lower)\<close>\<close>

definition score :: "string \<Rightarrow> string list \<Rightarrow> nat" where
  "score text_lower keywords =
     sum_list (map (\<lambda>keyword. 1) (filter (\<lambda>keyword. py_in keyword text_lower) keywords))"

text \<open>
  The builtin \<^verbatim>\<open>max(iterable, key=f)\<close>: the first item is the candidate, a later item
  replaces it only when its key is strictly greater, and an empty iterable raises
  \<^verbatim>\<open>ValueError\<close>. Without \<^verbatim>\<open>key\<close> the items themselves are compared.
\<close>

fun max_from :: "('a \<Rightarrow> 'b::linorder) \<Rightarrow> 'a \<Rightarrow> 'a list \<Rightarrow> 'a" where
  "max_from key best [] = best"
| "max_from key best (x # xs) =
     (if key x > key best then max_from key x xs else max_from key best xs)"

definition py_max :: "('a \<Rightarrow> 'b::linorder) \<Rightarrow> 'a list \<Rightarrow> exn + 'a" where
  "py_max key xs = (case xs of [] \<Rightarrow> Inl ValueError | x # rest \<Rightarrow> Inr (max_from key x rest))"

text \<open>The loop of \<^verbatim>\<open>keyword_based_classification\<close> that fills \<^verbatim>\<open>scores\<close>.\<close>

definition keyword_scores :: "string \<Rightarrow> (string \<times> nat) list" where
  "keyword_scores text_lower =
     foldl (\<lambda>scores (category, keywords).
              AList.update category (score text_lower keywords) scores)
       [] CATEGORY_KEYWORDS"

text \<open>
  \<^verbatim>\<open>max(scores, key=scores.get)\<close> walks the keys of \<^verbatim>\<open>scores\<close>; \<^verbatim>\<open>scores[max_category]\<close>
  raises \<^verbatim>\<open>KeyError\<close> on a missing key.
\<close>

definition keyword_based_classification :: "string \<Rightarrow> exn + string" where
  "keyword_based_classification text =
     (let text_lower = lower text;
          scores = keyword_scores text_lower
      in case py_max (map_of scores) (map fst scores) of
           Inl e \<Rightarrow> Inl e
         | Inr max_category \<Rightarrow>
             (case map_of scores max_category of
                None \<Rightarrow> Inl KeyError
              | Some s \<Rightarrow> if s > 0 then Inr max_category else Inr ''Other''))"

section \<open>The statistical model\<close>

text \<open>
  \<^verbatim>\<open>self.model\<close> is a scikit-learn \<^verbatim>\<open>Pipeline\<close>, which is not code of this module. The
  module uses two of its methods, each on a one-element batch of which it reads item 0:
  \<^verbatim>\<open>model.predict([x])[0]\<close> and \<^verbatim>\<open>model.predict_proba([x])[0]\<close>. Either may raise. A
  probability is a \<^typ>\<open>real\<close>; the literals 0.4, 0.5 and 0.6 are the reals of these names.
\<close>

record pipeline =
  pipeline_predict :: "string \<Rightarrow> exn + string"
  pipeline_predict_proba :: "string \<Rightarrow> exn + real list"

text \<open>
  What scikit-learn promises of a classifier fitted on the labels \<open>y_train\<close>: a label it
  predicts is one of \<open>y_train\<close>, and a row of \<^verbatim>\<open>predict_proba\<close> holds probabilities.
\<close>

definition fitted_on :: "string list \<Rightarrow> pipeline \<Rightarrow> bool" where
  "fitted_on y_train m =
     (\<forall>x. (\<forall>label. pipeline_predict m x = Inr label \<longrightarrow> label \<in> set y_train) \<and>
          (\<forall>probabilities. pipeline_predict_proba m x = Inr probabilities \<longrightarrow>
             (\<forall>p \<in> set probabilities. 0 \<le> p \<and> p \<le> 1)))"

section \<open>The classifier\<close>

record classifier =
  model_path :: string
  model :: "pipeline option"
  categories :: "string list"

text \<open>
  What \<^verbatim>\<open>predict\<close> calls besides pure string functions, in the order of the calls.
\<close>

datatype call =
    Model_predict string
  | Model_predict_proba string
  | Keyword_fallback string
  | Print_error exn

text \<open>
  The body of the \<^verbatim>\<open>try\<close> block of \<^verbatim>\<open>predict\<close>. With \<^verbatim>\<open>self.model\<close> being \<^verbatim>\<open>None\<close> the
  attribute access \<^verbatim>\<open>self.model.predict\<close> raises \<^verbatim>\<open>AttributeError\<close> before any call.
\<close>

definition predict_try ::
  "classifier \<Rightarrow> string \<Rightarrow> string \<Rightarrow> bool \<Rightarrow> (exn + string \<times> real) \<times> call list" where
  "predict_try self text processed_text use_keywords_fallback =
     (case model self of
        None \<Rightarrow> (Inl AttributeError, [])
      | Some m \<Rightarrow>
          (case pipeline_predict m processed_text of
             Inl e \<Rightarrow> (Inl e, [Model_predict processed_text])
           | Inr prediction \<Rightarrow>
               (case pipeline_predict_proba m processed_text of
                  Inl e \<Rightarrow>
                    (Inl e, [Model_predict processed_text, Model_predict_proba processed_text])
                | Inr probabilities \<Rightarrow>
                    (case py_max (\<lambda>p. p) probabilities of
                       Inl e \<Rightarrow>
                         (Inl e,
                          [Model_predict processed_text, Model_predict_proba processed_text])
                     | Inr confidence \<Rightarrow>
                         if use_keywords_fallback \<and> confidence < 0.4
                         then (map_sum id (\<lambda>keyword_prediction. (keyword_prediction, 0.6))
                                 (keyword_based_classification text),
                               [Model_predict processed_text,
                                Model_predict_proba processed_text, Keyword_fallback text])
                         else (Inr (prediction, confidence),
                               [Model_predict processed_text,
                                Model_predict_proba processed_text])))))"

text \<open>
  \<^verbatim>\<open>predict\<close>: the result, or the exception that leaves the function, and the calls made.
  \<^verbatim>\<open>not text\<close> holds of the empty string only.
\<close>

definition predict ::
  "classifier \<Rightarrow> string \<Rightarrow> bool \<Rightarrow> (exn + string \<times> real) \<times> call list" where
  "predict self text use_keywords_fallback =
     (if text = [] \<or> length (strip text) < 10 then (Inr (''Other'', 0.5), [])
      else
        let processed_text = preprocess_text text
        in case predict_try self text processed_text use_keywords_fallback of
             (Inr result, calls) \<Rightarrow> (Inr result, calls)
           | (Inl e, calls) \<Rightarrow>
               (map_sum id (\<lambda>keyword_prediction. (keyword_prediction, 0.5))
                  (keyword_based_classification text),
                calls @ [Print_error e, Keyword_fallback text]))"

section \<open>Training, saving and loading\<close>

text \<open>
  The world outside the process: the files that joblib can read, each either the pickle
  of a value of \<^verbatim>\<open>self.model\<close> or bytes that do not unpickle; the paths joblib can
  write; and what was printed.
\<close>

datatype artifact = Pickled "pipeline option" | Corrupt

datatype printed =
    Model_saved string
  | Error_saving exn
  | Model_loaded string
  | Error_loading exn
  | Model_trained nat

record world =
  files :: "string \<Rightarrow> artifact option"
  writable :: "string \<Rightarrow> bool"
  stdout :: "printed list"

definition joblib_dump :: "pipeline option \<Rightarrow> string \<Rightarrow> world \<Rightarrow> exn + world" where
  "joblib_dump obj path w =
     (if writable w path then Inr (w\<lparr>files := (files w)(path \<mapsto> Pickled obj)\<rparr>)
      else Inl (Raised ''OSError''))"


definition print :: "printed \<Rightarrow> world \<Rightarrow> world" where
  "print line w = w\<lparr>stdout := stdout w @ [line]\<rparr>"

definition save_model :: "classifier \<Rightarrow> world \<Rightarrow> world" where
  "save_model self w =
     (case joblib_dump (model self) (model_path self) w of
        Inr w' \<Rightarrow> print (Model_saved (model_path self)) w'
      | Inl e \<Rightarrow> print (Error_saving e) w)"

text \<open>The two lists that the loops of \<^verbatim>\<open>train\<close> build, in step.\<close>

definition training_pairs :: "(string \<times> string) list" where
  "training_pairs =
     concat (map (\<lambda>(category, texts). map (\<lambda>t. (preprocess_text t, category)) texts)
               TRAINING_DATA)"

definition X_train :: "string list" where
  "X_train = map fst training_pairs"

definition y_train :: "string list" where
  "y_train = map snd training_pairs"

text \<open>
  \<^verbatim>\<open>train\<close>. The parameter \<open>fit\<close> is scikit-learn's: it builds the TF-IDF and naive Bayes
  pipeline and fits it, giving the fitted pipeline or raising. An exception of the fit
  is not caught: it leaves \<^verbatim>\<open>train\<close>, and with it \<^verbatim>\<open>__init__\<close>.
\<close>

definition train ::
  "(string list \<Rightarrow> string list \<Rightarrow> exn + pipeline) \<Rightarrow> classifier \<Rightarrow> world
     \<Rightarrow> (exn + classifier) \<times> world" where
  "train fit self w =
     (case fit X_train y_train of
        Inl e \<Rightarrow> (Inl e, w)
      | Inr m \<Rightarrow>
          let self' = self\<lparr>model := Some m\<rparr>;
              w' = save_model self' w
          in (Inr self', print (Model_trained (length X_train)) w'))"



section \<open>The keyword fallback in the words of the specification\<close>

text \<open>
  What the specification says of the fallback, to be compared with
  \<^const>\<open>keyword_based_classification\<close>: for each category, count how many of its
  keywords appear as substrings in the lower-cased text; pick the category with the
  highest count, the first one in enumeration order among equals; if every category
  scores zero, return \<^verbatim>\<open>Other\<close>.
\<close>

definition keyword_count :: "string \<Rightarrow> string list \<Rightarrow> nat" where
  "keyword_count text keywords =
     length (filter (\<lambda>keyword. py_in keyword (lower text)) keywords)"

definition keyword_choice :: "string \<Rightarrow> string" where
  "keyword_choice text =
     (let counts = map (\<lambda>(category, keywords). (category, keyword_count text keywords))
                     CATEGORY_KEYWORDS;
          highest = Max (set (map snd counts))
      in if list_all (\<lambda>(category, n). n = 0) counts then ''Other''
         else case find (\<lambda>(category, n). n = highest) counts of
                Some (category, n) \<Rightarrow> category
              | None \<Rightarrow> ''Other'')"

section \<open>What is assumed of scikit-learn and of the files\<close>



section \<open>Stub models\<close>

text \<open>
  A stub statistical model that gives the same label and the same row of probabilities
  for every text, one whose two methods raise, and a classifier around a given value of
  \<^verbatim>\<open>self.model\<close>. The examples run on them.
\<close>

definition stub_model :: "string \<Rightarrow> real list \<Rightarrow> pipeline" where
  "stub_model label probabilities =
     \<lparr>pipeline_predict = (\<lambda>x. Inr label), pipeline_predict_proba = (\<lambda>x. Inr probabilities)\<rparr>"

definition raising_model :: "exn \<Rightarrow> pipeline" where
  "raising_model e =
     \<lparr>pipeline_predict = (\<lambda>x. Inl e), pipeline_predict_proba = (\<lambda>x. Inl e)\<rparr>"

definition classifier_with :: "pipeline option \<Rightarrow> classifier" where
  "classifier_with m =
     \<lparr>model_path = ''complaint_classifier.pkl'', model = m,
      categories = map fst CATEGORY_KEYWORDS\<rparr>"


text \<open>A word of a normalised text: not empty, and made of lower-case letters and digits.\<close>

definition word_ok :: "string \<Rightarrow> bool" where
  "word_ok w = (w \<noteq> [] \<and> (\<forall>c \<in> set w. is_az c \<or> is_09 c))"

section \<open>Facts about the string functions\<close>

lemma split_Nil: "split [] = []"
  by (simp add: split.simps)

lemma split_space: "py_isspace c \<Longrightarrow> split (c # s) = split s"
  by (simp add: split.simps [of "c # s"] split.simps [of s])

lemma split_nonspace:
  "\<not> py_isspace c \<Longrightarrow>
   split (c # s) = (c # takeWhile (\<lambda>x. \<not> py_isspace x) s) # split (dropWhile (\<lambda>x. \<not> py_isspace x) s)"
  by (simp add: split.simps [of "c # s"])

lemma az_not_space: "is_az c \<or> is_09 c \<Longrightarrow> \<not> py_isspace c"
  by (auto simp: is_az_def is_09_def py_isspace_def)

lemma lower_char_id: "is_az c \<or> is_09 c \<or> py_isspace c \<Longrightarrow> lower_char c = c"
  by (auto simp: is_az_def is_09_def py_isspace_def lower_char_def Let_def)

lemma split_word:
  assumes "w \<noteq> []" "\<forall>c \<in> set w. \<not> py_isspace c"
  shows "split (w @ CHR '' '' # s) = w # split s"
proof -
  obtain c cs where w: "w = c # cs" using assms(1) by (cases w) auto
  have sp: "py_isspace (CHR '' '')" by (simp add: py_isspace_def)
  have c: "\<not> py_isspace c" and cs: "\<forall>x \<in> set cs. \<not> py_isspace x" using assms(2) w by auto
  have t: "takeWhile (\<lambda>x. \<not> py_isspace x) (cs @ CHR '' '' # s) = cs"
    using cs sp by (simp add: takeWhile_append2 )
  have d: "dropWhile (\<lambda>x. \<not> py_isspace x) (cs @ CHR '' '' # s) = CHR '' '' # s"
    using cs sp by (simp add: dropWhile_append2)
  show ?thesis using c t d sp by (simp add: w split_nonspace split_space)
qed

lemma split_word_end:
  assumes "w \<noteq> []" "\<forall>c \<in> set w. \<not> py_isspace c"
  shows "split w = [w]"
proof -
  obtain c cs where w: "w = c # cs" using assms(1) by (cases w) auto
  have c: "\<not> py_isspace c" and cs: "\<forall>x \<in> set cs. \<not> py_isspace x" using assms(2) w by auto
  have t: "takeWhile (\<lambda>x. \<not> py_isspace x) cs = cs"
    using cs by (simp)
  have d: "dropWhile (\<lambda>x. \<not> py_isspace x) cs = []"
    using cs by (simp)
  have "split (c # cs) = (c # cs) # split []"
    unfolding split_nonspace [OF c] t d ..
  then show ?thesis by (simp add: w split_Nil)
qed

lemma split_join: "\<forall>w \<in> set ws. word_ok w \<Longrightarrow> split (join ws) = ws"
proof (induction ws rule: join.induct)
  case 1
  then show ?case by (simp add: split_Nil)
next
  case (2 w)
  then show ?case by (simp add: split_word_end word_ok_def az_not_space)
next
  case (3 w v ws)
  have "w \<noteq> []" "\<forall>c \<in> set w. \<not> py_isspace c"
    using 3(2) by (auto simp: word_ok_def az_not_space)
  then have "split (w @ CHR '' '' # join (v # ws)) = w # split (join (v # ws))"
    by (rule split_word)
  then show ?case using 3 by simp
qed

lemma set_join: "set (join ws) \<subseteq> insert (CHR '' '') (\<Union> (set ` set ws))"
  by (induction ws rule: join.induct) auto

lemma split_words:
  "w \<in> set (split s) \<Longrightarrow> w \<noteq> [] \<and> set w \<subseteq> {c \<in> set s. \<not> py_isspace c}"
proof (induction s arbitrary: w rule: split.induct)
  case (1 s)
  show ?case
  proof (cases "dropWhile py_isspace s")
    case Nil
    have "split s = []"
      by (subst split.simps) (simp only: Nil list.case)
    then show ?thesis using 1(2) by simp
  next
    case (Cons c cs)
    have sub: "set (c # cs) \<subseteq> set s"
      using set_dropWhileD [of _ py_isspace s] Cons by (metis subsetI)
    have c: "\<not> py_isspace c" using Cons hd_dropWhile [of py_isspace s] by (metis list.sel(1) list.distinct(1))
    have "split s = (c # takeWhile (\<lambda>x. \<not> py_isspace x) cs)
                      # split (dropWhile (\<lambda>x. \<not> py_isspace x) cs)"
      by (subst split.simps) (simp only: Cons list.case)
    with 1(2) consider "w = c # takeWhile (\<lambda>x. \<not> py_isspace x) cs"
      | "w \<in> set (split (dropWhile (\<lambda>x. \<not> py_isspace x) cs))"
      by auto
    then show ?thesis
    proof cases
      case 1
      have "set (takeWhile (\<lambda>x. \<not> py_isspace x) cs) \<subseteq> {x \<in> set cs. \<not> py_isspace x}"
        by (auto dest: set_takeWhileD)
      then show ?thesis using 1 c sub by auto
    next
      case 2
      then have "w \<noteq> [] \<and> set w \<subseteq> {x \<in> set (dropWhile (\<lambda>x. \<not> py_isspace x) cs). \<not> py_isspace x}"
        using "1.IH" [OF Cons] by simp
      moreover have "set (dropWhile (\<lambda>x. \<not> py_isspace x) cs) \<subseteq> set cs"
        by (auto dest: set_dropWhileD)
      ultimately show ?thesis using sub by auto
    qed
  qed
qed

lemma sub_special_chars:
  "c \<in> set (sub_special s) \<Longrightarrow> is_az c \<or> is_09 c \<or> py_isspace c"
  by (auto simp: sub_special_def py_isspace_def split: if_splits)

lemma preprocess_words_ok: "\<forall>w \<in> set (split (sub_special (lower s))). word_ok w"
proof
  fix w assume "w \<in> set (split (sub_special (lower s)))"
  then have "w \<noteq> [] \<and> set w \<subseteq> {c \<in> set (sub_special (lower s)). \<not> py_isspace c}"
    by (rule split_words)
  then show "word_ok w"
    using sub_special_chars [of _ "lower s"] by (auto simp: word_ok_def)
qed

lemma join_chars:
  "\<forall>w \<in> set ws. word_ok w \<Longrightarrow> c \<in> set (join ws) \<Longrightarrow> is_az c \<or> is_09 c \<or> py_isspace c"
proof -
  assume a: "\<forall>w \<in> set ws. word_ok w" and c: "c \<in> set (join ws)"
  have sp: "py_isspace (CHR '' '')" by (simp add: py_isspace_def)
  from c set_join [of ws] have "c = CHR '' '' \<or> (\<exists>w \<in> set ws. c \<in> set w)" by auto
  then show ?thesis using a sp by (auto simp: word_ok_def)
qed

lemma preprocess_join:
  assumes "\<forall>w \<in> set ws. word_ok w"
  shows "preprocess_text (join ws) = join ws"
proof -
  have ch: "\<forall>c \<in> set (join ws). is_az c \<or> is_09 c \<or> py_isspace c"
    using join_chars [OF assms] by blast
  then have "lower (join ws) = join ws"
    by (simp add: lower_def map_idI lower_char_id)
  moreover have "sub_special (join ws) = join ws"
    using ch by (simp add: sub_special_def map_idI)
  ultimately show ?thesis
    by (simp add: preprocess_text_def split_join [OF assms])
qed

lemma filter_dropWhile_space:
  "filter (\<lambda>c. \<not> py_isspace c) (dropWhile py_isspace s) = filter (\<lambda>c. \<not> py_isspace c) s"
  by (induction s) auto

lemma filter_strip: "filter (\<lambda>c. \<not> py_isspace c) (strip s) = filter (\<lambda>c. \<not> py_isspace c) s"
  by (simp add: strip_def filter_dropWhile_space rev_filter [symmetric])

lemma strip_length: "length (filter (\<lambda>c. \<not> py_isspace c) s) \<le> length (strip s)"
  using length_filter_le [of "\<lambda>c. \<not> py_isspace c" "strip s"] by (simp add: filter_strip)

lemma startswith_set: "startswith s k \<Longrightarrow> set k \<subseteq> set s"
  by (induction s k rule: startswith.induct) auto

lemma py_in_set: "py_in k s \<Longrightarrow> set k \<subseteq> set s"
proof (induction s)
  case Nil
  then show ?case by simp
next
  case (Cons a s)
  then show ?case using startswith_set [of "a # s" k] by auto
qed

lemma lower_char_not_S: "lower_char c \<noteq> CHR ''S''"
proof
  assume a: "lower_char c = CHR ''S''"
  then have "of_char (lower_char c) = (83::nat)" by simp
  then show False
    by (auto simp: lower_char_def Let_def split: if_splits)
qed

lemma Speaker_never_in_lower: "\<not> py_in ''Speaker'' (lower t)"
proof
  assume "py_in ''Speaker'' (lower t)"
  then have "CHR ''S'' \<in> set (lower t)" by (auto dest: py_in_set)
  then obtain c where "lower_char c = CHR ''S''" by (auto simp: lower_def)
  then show False using lower_char_not_S by blast
qed

section \<open>Facts about the keyword fallback\<close>

lemma update_fresh: "k \<notin> fst ` set acc \<Longrightarrow> AList.update k v acc = acc @ [(k, v)]"
  by (induction acc) auto

lemma foldl_update_fresh:
  "distinct (map fst d) \<Longrightarrow> fst ` set acc \<inter> fst ` set d = {} \<Longrightarrow>
   foldl (\<lambda>scores (k, x). AList.update k (f x) scores) acc d = acc @ map (\<lambda>(k, x). (k, f x)) d"
proof (induction d arbitrary: acc)
  case Nil
  then show ?case by simp
next
  case (Cons p d)
  obtain k x where p: "p = (k, x)" by (cases p)
  have fresh: "k \<notin> fst ` set acc" using Cons.prems(2) p by auto
  have "fst ` set (acc @ [(k, f x)]) \<inter> fst ` set d = {}"
    using Cons.prems p by auto
  moreover have "distinct (map fst d)" using Cons.prems(1) by simp
  ultimately have "foldl (\<lambda>scores (k, x). AList.update k (f x) scores) (acc @ [(k, f x)]) d
      = (acc @ [(k, f x)]) @ map (\<lambda>(k, x). (k, f x)) d"
    by (rule Cons.IH [rotated])
  then show ?case by (simp add: p update_fresh [OF fresh])
qed

lemma category_keys:
  "map fst CATEGORY_KEYWORDS =
     [''Electricity'', ''Water Supply'', ''Road & Transport'', ''Cleanliness'', ''Noise'', ''Other'']"
  by (simp add: CATEGORY_KEYWORDS_def)

lemma distinct_category_keys: "distinct (map fst CATEGORY_KEYWORDS)"
  unfolding category_keys by simp

lemma category_keywords_nonempty: "CATEGORY_KEYWORDS \<noteq> []"
  by (simp add: CATEGORY_KEYWORDS_def)

lemma keyword_scores_map:
  "keyword_scores t = map (\<lambda>(category, keywords). (category, score t keywords)) CATEGORY_KEYWORDS"
  unfolding keyword_scores_def
  using foldl_update_fresh [OF distinct_category_keys, of "[]" "score t"] by simp

lemma map_of_map_values:
  "map_of (map (\<lambda>(k, v). (k, f v)) xs) k = map_option f (map_of xs k)"
  by (induction xs) auto

lemma map_of_keyword_scores:
  "map_of (keyword_scores s) category = map_option (score s) (map_of CATEGORY_KEYWORDS category)"
  unfolding keyword_scores_map by (rule map_of_map_values)

lemma noise_keywords:
  "map_of CATEGORY_KEYWORDS ''Noise'' =
     Some [''noise'', ''sound'', ''loud'', ''disturbance'', ''Speaker'', ''music'',
           ''construction'', ''pollution'', ''volume'', ''shouting'', ''party'', ''horn'',
           ''siren'', ''barking'', ''disturb'', ''quiet'']"
  by (simp add: CATEGORY_KEYWORDS_def)

lemma max_from_find:
  "find (\<lambda>y. key y = Max (key ` set (best # xs))) (best # xs) = Some (max_from key best xs)"
proof (induction xs arbitrary: best)
  case Nil
  then show ?case by simp
next
  case (Cons x xs)
  let ?M = "Max (key ` set (best # x # xs))"
  show ?case
  proof (cases "key x > key best")
    case True
    have M: "?M = Max (key ` set (x # xs))"
    proof -
      have "?M = max (key best) (Max (key ` set (x # xs)))" by simp
      moreover have "key x \<le> Max (key ` set (x # xs))"
        by (rule Max_ge) simp_all
      then have "key best \<le> Max (key ` set (x # xs))"
        using True by (meson less_imp_le order_trans)
      ultimately show ?thesis by (simp add: max_absorb2)
    qed
    have "key best \<noteq> ?M"
    proof -
      have "key x \<le> ?M" by (rule Max_ge) simp_all
      then show ?thesis using True by (metis leD)
    qed
    then show ?thesis using True Cons.IH [of x] M by simp
  next
    case False
    have M: "?M = Max (key ` set (best # xs))"
    proof -
      have "key ` set (best # x # xs) = insert (key x) (key ` set (best # xs))"
        by auto
      then have "?M = Max (insert (key x) (key ` set (best # xs)))"
        by (simp only:)
      also have "\<dots> = max (key x) (Max (key ` set (best # xs)))"
        by (rule Max_insert) simp_all
      finally have "?M = max (key x) (Max (key ` set (best # xs)))" .
      moreover have "key best \<le> Max (key ` set (best # xs))"
        by (rule Max_ge) simp_all
      then have "key x \<le> Max (key ` set (best # xs))"
        using False by (meson not_less order_trans)
      ultimately show ?thesis by (simp add: max_absorb2)
    qed
    show ?thesis
    proof (cases "key best = ?M")
      case True
      then show ?thesis using False Cons.IH [of best] M by simp
    next
      case neq: False
      have "key best \<le> ?M" by (rule Max_ge) simp_all
      then have "key x \<noteq> ?M" using False neq
        by (metis order.not_eq_order_implies_strict)
      then show ?thesis using False Cons.IH [of best] M neq by simp
    qed
  qed
qed



lemma find_map_fst:
  "find P (map fst xs) = map_option fst (find (\<lambda>p. P (fst p)) xs)"
  by (induction xs) auto

lemma find_Some_mem: "find P xs = Some x \<Longrightarrow> P x \<and> x \<in> set xs"
  by (induction xs) (auto split: if_splits)

lemma Max_Some: "finite A \<Longrightarrow> A \<noteq> {} \<Longrightarrow> Max (Some ` A) = Some (Max (A :: nat set))"
  by (rule mono_Max_commute [symmetric]) (auto simp: mono_def)

lemma py_max_Max:
  fixes ps :: "real list"
  assumes "ps \<noteq> []"
  shows "py_max (\<lambda>p. p) ps = Inr (Max (set ps))"
proof -
  obtain b xs where ps: "ps = b # xs" using assms by (cases ps) auto
  have "find (\<lambda>y. y = Max ((\<lambda>p. p) ` set (b # xs))) (b # xs) = Some (max_from (\<lambda>p. p) b xs)"
    by (rule max_from_find)
  from find_Some_mem [OF this] show ?thesis by (simp add: py_max_def ps)
qed

lemma py_max_dict:
  fixes counts :: "(string \<times> nat) list"
  assumes ne: "counts \<noteq> []" and dist: "distinct (map fst counts)"
  shows "\<exists>category. find (\<lambda>(category, n). n = Max (set (map snd counts))) counts
                        = Some (category, Max (set (map snd counts)))
                    \<and> py_max (map_of counts) (map fst counts) = Inr category
                    \<and> map_of counts category = Some (Max (set (map snd counts)))"
proof -
  let ?M = "Max (set (map snd counts))"
  let ?keys = "map fst counts"
  have look: "map_of counts (fst p) = Some (snd p)" if "p \<in> set counts" for p
    using map_of_is_SomeI [OF dist, of "fst p" "snd p"] that by simp
  obtain k rest where keys: "?keys = k # rest" using ne by (cases counts) auto
  have img: "map_of counts ` set ?keys = Some ` set (map snd counts)"
    using look by (force simp: image_iff)
  have "Max (map_of counts ` set ?keys) = Some ?M"
    unfolding img using ne by (intro Max_Some) auto
  then have "find (\<lambda>c. map_of counts c = Some ?M) ?keys = Some (max_from (map_of counts) k rest)"
    using max_from_find [of "map_of counts" k rest] keys by simp
  moreover have "find (\<lambda>c. map_of counts c = Some ?M) ?keys
      = map_option fst (find (\<lambda>p. map_of counts (fst p) = Some ?M) counts)"
    by (rule find_map_fst)
  moreover have "find (\<lambda>p. map_of counts (fst p) = Some ?M) counts
      = find (\<lambda>(category, n). n = ?M) counts"
    by (rule find_cong) (auto simp: look)
  ultimately have "map_option fst (find (\<lambda>(category, n). n = ?M) counts)
      = Some (max_from (map_of counts) k rest)"
    by simp
  then obtain p where p: "find (\<lambda>(category, n). n = ?M) counts = Some p"
    and r: "fst p = max_from (map_of counts) k rest"
    by auto
  from p have "p \<in> set counts" and "snd p = ?M"
    using find_Some_mem [OF p] by (auto split: prod.splits)
  then have "map_of counts (fst p) = Some ?M" using look by auto
  moreover have "py_max (map_of counts) ?keys = Inr (fst p)"
    using keys r by (simp add: py_max_def)
  moreover have "find (\<lambda>(category, n). n = ?M) counts = Some (fst p, ?M)"
    using p \<open>snd p = ?M\<close> by (cases p) auto
  ultimately show ?thesis by blast
qed

lemma score_count: "score (lower t) keywords = keyword_count t keywords"
  by (simp add: score_def keyword_count_def sum_list_triv)

lemma keyword_based_classification_choice:
  "keyword_based_classification t = Inr (keyword_choice t)"
proof -
  define counts where
    "counts = map (\<lambda>(category, keywords). (category, keyword_count t keywords))
                CATEGORY_KEYWORDS"
  define M where "M = Max (set (map snd counts))"
  have sc: "keyword_scores (lower t) = counts"
    by (simp add: keyword_scores_map score_count counts_def)
  have keys: "map fst counts = map fst CATEGORY_KEYWORDS"
    by (simp add: counts_def case_prod_unfold comp_def)
  have ne: "counts \<noteq> []" using category_keywords_nonempty by (simp add: counts_def)
  have dist: "distinct (map fst counts)"
    unfolding keys by (rule distinct_category_keys)
  obtain category where
    f: "find (\<lambda>(category, n). n = M) counts = Some (category, M)" and
    m: "py_max (map_of counts) (map fst counts) = Inr category" and
    l: "map_of counts category = Some M"
    using py_max_dict [OF ne dist] unfolding M_def by blast
  have zero: "list_all (\<lambda>(category, n). n = 0) counts \<longleftrightarrow> M = 0"
  proof
    assume "list_all (\<lambda>(category, n). n = 0) counts"
    then have "set (map snd counts) \<subseteq> {0}" by (auto simp: list_all_iff)
    moreover have "M \<in> set (map snd counts)"
      unfolding M_def using ne by (intro Max_in) auto
    ultimately show "M = 0" by blast
  next
    assume M: "M = 0"
    have "n \<le> M" if "n \<in> set (map snd counts)" for n
      unfolding M_def using that by (intro Max_ge) auto
    then show "list_all (\<lambda>(category, n). n = 0) counts"
      unfolding M by (fastforce simp: list_all_iff)
  qed
  have lhs: "keyword_based_classification t = Inr (if M > 0 then category else ''Other'')"
    by (simp add: keyword_based_classification_def Let_def sc m l)
  have rhs: "keyword_choice t = (if M = 0 then ''Other'' else category)"
    unfolding keyword_choice_def Let_def counts_def [symmetric] M_def [symmetric]
    by (simp add: f zero)
  show ?thesis unfolding lhs rhs by simp
qed

lemma keyword_choice_category: "keyword_choice t \<in> set (map fst CATEGORY_KEYWORDS)"
proof -
  define counts where
    "counts = map (\<lambda>(category, keywords). (category, keyword_count t keywords))
                CATEGORY_KEYWORDS"
  have keys: "map fst counts = map fst CATEGORY_KEYWORDS"
    by (simp add: counts_def case_prod_unfold comp_def)
  have other: "''Other'' \<in> set (map fst CATEGORY_KEYWORDS)"
    by (simp add: category_keys)
  have "category \<in> set (map fst counts)" if "find P counts = Some (category, n)" for P category n
    using find_Some_mem [OF that] by force
  then show ?thesis
    unfolding keyword_choice_def Let_def counts_def [symmetric] keys [symmetric]
    using other [folded keys] by (auto split: option.splits)
qed

lemma keyword_label:
  "\<exists>k. keyword_based_classification t = Inr k \<and> k \<in> set (map fst CATEGORY_KEYWORDS)"
  using keyword_based_classification_choice keyword_choice_category by blast

lemma pothole_only:
  assumes "py_in ''pothole'' (lower t)"
    and "\<forall>(category, keywords) \<in> set CATEGORY_KEYWORDS.
           \<forall>keyword \<in> set keywords. keyword \<noteq> ''pothole'' \<longrightarrow> \<not> py_in keyword (lower t)"
  shows "keyword_based_classification t = Inr ''Road & Transport''"
proof -
  have sc: "keyword_scores (lower t) =
      [(''Electricity'', 0), (''Water Supply'', 0), (''Road & Transport'', 1),
       (''Cleanliness'', 0), (''Noise'', 0), (''Other'', 0)]"
    using assms by (simp add: keyword_scores_map CATEGORY_KEYWORDS_def score_def)
  show ?thesis
    by (simp add: keyword_based_classification_def Let_def sc py_max_def)
qed

section \<open>Facts about \<^verbatim>\<open>predict\<close>\<close>


lemma predict_long:
  "\<not> (t = [] \<or> length (strip t) < 10) \<Longrightarrow>
   predict self t fb =
     (case predict_try self t (preprocess_text t) fb of
        (Inr result, calls) \<Rightarrow> (Inr result, calls)
      | (Inl e, calls) \<Rightarrow>
          (map_sum id (\<lambda>keyword_prediction. (keyword_prediction, 0.5))
             (keyword_based_classification t),
           calls @ [Print_error e, Keyword_fallback t]))"
  by (simp add: predict_def Let_def)




section \<open>Facts about training\<close>

lemma training_keys:
  "map fst TRAINING_DATA =
     [''Electricity'', ''Water Supply'', ''Road & Transport'', ''Cleanliness'', ''Noise'', ''Other'']"
  by (simp add: TRAINING_DATA_def)

lemma training_texts: "\<forall>(category, texts) \<in> set TRAINING_DATA. length texts = 10"
  by (simp add: TRAINING_DATA_def)

lemma y_train_labels:
  "y_train = concat (map (replicate 10)
     [''Electricity'', ''Water Supply'', ''Road & Transport'', ''Cleanliness'', ''Noise'', ''Other''])"
  by (simp add: y_train_def training_pairs_def TRAINING_DATA_def numeral_eq_Suc)

lemma set_y_train: "set y_train = set (map fst CATEGORY_KEYWORDS)"
  unfolding y_train_labels category_keys by (simp add: numeral_eq_Suc) 









section \<open>The claims\<close>

subsection \<open>C1: \<^verbatim>\<open>predict\<close> always returns a pair in range\<close>



subsection \<open>C2: the short-input check\<close>

text \<open>
  C2. For every string that is empty, or whose length after trimming white space is below
  10, \<^verbatim>\<open>predict\<close> returns exactly the pair of Other and 0.5 and calls neither the
  statistical model nor the keyword fallback: the list of its calls is empty, whatever
  the model and the flag are.
\<close>

theorem short_input_short_circuits:
  "t = [] \<or> length (strip t) < 10 \<Longrightarrow> predict self t fb = (Inr (''Other'', 0.5), [])"
  by (simp add: predict_def)

text \<open>
  The empty string, and a text of eleven characters of which seven are left by the
  trimming: its only word is a keyword of Road \& Transport, and the answer is Other.
\<close>

theorem short_input_short_circuits_witness:
  "predict (classifier_with None) '''' True = (Inr (''Other'', 0.5), []) \<and>
   predict (classifier_with (Some (stub_model ''Noise'' [0.9]))) ''  pothole  '' True
     = (Inr (''Other'', 0.5), [])"
proof -
  have "length (strip ''  pothole  '') < 10" by code_simp
  then show ?thesis
    using short_input_short_circuits [of "''''"]
      short_input_short_circuits [of "''  pothole  ''"]
    by simp
qed

subsection \<open>C3: the confidence threshold\<close>

text \<open>
  C3. Let the text pass the short-input check and let the statistical model succeed on the
  normalised text, with \<^verbatim>\<open>use_keywords_fallback\<close> at its default \<^verbatim>\<open>True\<close>. If the greatest
  class probability is strictly below 0.4, \<^verbatim>\<open>predict\<close> returns the keyword classification
  of the original text, not of the normalised one, with the confidence 0.6. If it is 0.4 or
  more, \<^verbatim>\<open>predict\<close> returns the label of the model with that probability, and the keyword
  fallback is not called.
\<close>

theorem fallback_threshold:
  assumes "\<not> (t = [] \<or> length (strip t) < 10)"
    and "model self = Some m"
    and "pipeline_predict m (preprocess_text t) = Inr prediction"
    and "pipeline_predict_proba m (preprocess_text t) = Inr probabilities"
    and "probabilities \<noteq> []"
  shows "(Max (set probabilities) < 0.4 \<longrightarrow>
           (\<exists>k. keyword_based_classification t = Inr k \<and>
                predict self t True =
                  (Inr (k, 0.6),
                   [Model_predict (preprocess_text t), Model_predict_proba (preprocess_text t),
                    Keyword_fallback t]))) \<and>
         (0.4 \<le> Max (set probabilities) \<longrightarrow>
            predict self t True =
              (Inr (prediction, Max (set probabilities)),
               [Model_predict (preprocess_text t), Model_predict_proba (preprocess_text t)]))"
proof -
  obtain k where k: "keyword_based_classification t = Inr k" using keyword_label by blast
  have mx: "py_max (\<lambda>p. p) probabilities = Inr (Max (set probabilities))"
    using assms(5) by (rule py_max_Max)
  show ?thesis
    by (simp add: predict_long [OF assms(1)] predict_try_def assms(2,3,4) mx k)
qed

text \<open>
  A stub model whose greatest probability is 0.39999 sends the text to the keywords; one
  whose greatest probability is exactly 0.4 does not.
\<close>

theorem fallback_threshold_witness:
  "predict (classifier_with (Some (stub_model ''Noise'' [0.39999, 0.2])))
     ''Large pothole on main road'' True
     = (Inr (''Road & Transport'', 0.6),
        [Model_predict ''large pothole on main road'',
         Model_predict_proba ''large pothole on main road'',
         Keyword_fallback ''Large pothole on main road'']) \<and>
   predict (classifier_with (Some (stub_model ''Noise'' [0.4, 0.3])))
     ''Large pothole on main road'' True
     = (Inr (''Noise'', 0.4),
        [Model_predict ''large pothole on main road'',
         Model_predict_proba ''large pothole on main road''])"
proof -
  let ?t = "''Large pothole on main road''"
  have long: "\<not> (?t = [] \<or> length (strip ?t) < 10)" by code_simp
  have pre: "preprocess_text ?t = ''large pothole on main road''" by code_simp
  have kw: "keyword_based_classification ?t = Inr ''Road & Transport''" by code_simp
  have low: "Max (set [0.39999, 0.2 :: real]) < 0.4" by simp
  have high: "0.4 \<le> Max (set [0.4, 0.3 :: real])" "Max (set [0.4, 0.3 :: real]) = 0.4" by simp_all
  have a: "predict (classifier_with (Some (stub_model ''Noise'' [0.39999, 0.2]))) ?t True
     = (Inr (''Road & Transport'', 0.6),
        [Model_predict (preprocess_text ?t), Model_predict_proba (preprocess_text ?t),
         Keyword_fallback ?t])"
    using fallback_threshold [where t = ?t and m = "stub_model ''Noise'' [0.39999, 0.2]"
        and self = "classifier_with (Some (stub_model ''Noise'' [0.39999, 0.2]))"
        and prediction = "''Noise''" and probabilities = "[0.39999, 0.2]", OF long] low kw
    by (simp add: classifier_with_def stub_model_def)
  have b: "predict (classifier_with (Some (stub_model ''Noise'' [0.4, 0.3]))) ?t True
     = (Inr (''Noise'', 0.4),
        [Model_predict (preprocess_text ?t), Model_predict_proba (preprocess_text ?t)])"
    using fallback_threshold [where t = ?t and m = "stub_model ''Noise'' [0.4, 0.3]"
        and self = "classifier_with (Some (stub_model ''Noise'' [0.4, 0.3]))"
        and prediction = "''Noise''" and probabilities = "[0.4, 0.3]", OF long] high
    by (simp add: classifier_with_def stub_model_def)
  show ?thesis using a b unfolding pre by simp
qed

subsection \<open>C4: a failure of the statistical model\<close>

text \<open>
  C4. Let the text pass the short-input check. If the statistical step raises, because
  there is no model, or one of the two calls on the model raises, or the row of
  probabilities is empty so that \<^verbatim>\<open>max\<close> raises, then \<^verbatim>\<open>predict\<close> catches the exception
  and returns the keyword classification of the original text with the confidence 0.5;
  nothing reaches the caller. Its last two calls are the print of the exception and the
  keyword fallback.
\<close>

theorem statistical_failure_recovered:
  assumes "\<not> (t = [] \<or> length (strip t) < 10)"
    and "model self = None \<or>
         (\<exists>m. model self = Some m \<and>
              ((\<exists>e. pipeline_predict m (preprocess_text t) = Inl e) \<or>
               (\<exists>e. pipeline_predict_proba m (preprocess_text t) = Inl e) \<or>
               pipeline_predict_proba m (preprocess_text t) = Inr []))"
  shows "\<exists>k. keyword_based_classification t = Inr k \<and>
             fst (predict self t fb) = Inr (k, 0.5) \<and>
             (\<exists>calls e. snd (predict self t fb) = calls @ [Print_error e, Keyword_fallback t])"
proof -
  obtain k where k: "keyword_based_classification t = Inr k" using keyword_label by blast
  have "fst (predict self t fb) = Inr (k, 0.5) \<and>
        (\<exists>calls e. snd (predict self t fb) = calls @ [Print_error e, Keyword_fallback t])"
    using assms(2)
    by (auto simp: predict_long [OF assms(1)] predict_try_def k py_max_def
          split: option.splits sum.splits)
  then show ?thesis using k by blast
qed

text \<open>A classifier without a model, and one whose model raises on every call.\<close>

theorem statistical_failure_recovered_witness:
  "fst (predict (classifier_with None) ''Garbage not collected for days'' True)
     = Inr (''Cleanliness'', 0.5) \<and>
   fst (predict (classifier_with (Some (raising_model (Raised ''NotFittedError''))))
          ''Garbage not collected for days'' True)
     = Inr (''Cleanliness'', 0.5)"
proof -
  let ?t = "''Garbage not collected for days''"
  have long: "\<not> (?t = [] \<or> length (strip ?t) < 10)" by code_simp
  have kw: "keyword_based_classification ?t = Inr ''Cleanliness''" by code_simp
  have a: "fst (predict (classifier_with None) ?t True) = Inr (''Cleanliness'', 0.5)"
    using statistical_failure_recovered
      [where t = ?t and self = "classifier_with None" and fb = True, OF long] kw
    by (auto simp: classifier_with_def)
  have b: "fst (predict (classifier_with (Some (raising_model (Raised ''NotFittedError''))))
                  ?t True) = Inr (''Cleanliness'', 0.5)"
    using statistical_failure_recovered
      [where t = ?t and fb = True
         and self = "classifier_with (Some (raising_model (Raised ''NotFittedError'')))",
       OF long] kw
    by (auto simp: classifier_with_def raising_model_def)
  show ?thesis using a b by simp
qed

subsection \<open>C5: the keyword fallback\<close>

text \<open>
  C5. For every string, \<^verbatim>\<open>keyword_based_classification\<close> returns what the specification
  describes: it counts, for each category, the keywords of the category that occur as
  substrings of the lower-cased text, and returns the first category, in the order of the
  dictionary, whose count is the greatest, or Other if every count is zero. In particular
  a text that contains the keyword pothole and no other keyword gives Road \& Transport.
\<close>

theorem keyword_fallback_as_specified:
  "keyword_based_classification t = Inr (keyword_choice t) \<and>
   (py_in ''pothole'' (lower t) \<longrightarrow>
    (\<forall>(category, keywords) \<in> set CATEGORY_KEYWORDS.
       \<forall>keyword \<in> set keywords. keyword \<noteq> ''pothole'' \<longrightarrow> \<not> py_in keyword (lower t)) \<longrightarrow>
    keyword_based_classification t = Inr ''Road & Transport'')"
  using keyword_based_classification_choice [of t] pothole_only [of t] by blast

text \<open>
  A text with pothole as its only keyword; and a tie: dirty is a keyword of Water Supply
  and of Cleanliness, and Water Supply comes first.
\<close>

theorem keyword_fallback_as_specified_witness:
  "keyword_based_classification ''Pothole!'' = Inr ''Road & Transport'' \<and>
   keyword_choice ''Pothole!'' = ''Road & Transport'' \<and>
   keyword_based_classification ''dirty'' = Inr ''Water Supply''"
proof -
  have p: "py_in ''pothole'' (lower ''Pothole!'')" by code_simp
  have q: "\<forall>(category, keywords) \<in> set CATEGORY_KEYWORDS.
             \<forall>keyword \<in> set keywords.
               keyword \<noteq> ''pothole'' \<longrightarrow> \<not> py_in keyword (lower ''Pothole!'')"
    by code_simp
  have d: "keyword_choice ''dirty'' = ''Water Supply''" by code_simp
  have a: "keyword_based_classification ''Pothole!'' = Inr ''Road & Transport''"
    by (rule keyword_fallback_as_specified
          [of "''Pothole!''", THEN conjunct2, THEN mp, THEN mp, OF p q])
  have b: "keyword_based_classification ''Pothole!'' = Inr (keyword_choice ''Pothole!'')"
    by (rule keyword_fallback_as_specified [of "''Pothole!''", THEN conjunct1])
  have c: "keyword_choice ''Pothole!'' = ''Road & Transport''"
    using a unfolding b by simp
  have e: "keyword_based_classification ''dirty'' = Inr ''Water Supply''"
    using keyword_fallback_as_specified [of "''dirty''", THEN conjunct1] d by simp
  show ?thesis using a c e by simp
qed

subsection \<open>C6: construction\<close>



subsection \<open>C7: one enumeration for both paths\<close>

text \<open>
  C7. The labels the statistical model is fitted on are the keys of the training bank,
  and these are the keys of the keyword dictionary; every category has a training
  example; \<^verbatim>\<open>train\<close> stores the pipeline fitted on these labels; the keyword path returns
  a key of the keyword dictionary; and so does a model that scikit-learn fitted on these
  labels.
\<close>

theorem label_sets_agree:
  "set (map fst TRAINING_DATA) = set (map fst CATEGORY_KEYWORDS) \<and>
   (\<forall>(category, texts) \<in> set TRAINING_DATA. texts \<noteq> []) \<and>
   set y_train = set (map fst CATEGORY_KEYWORDS) \<and>
   (\<forall>self'. fst (train fit self w) = Inr self' \<longrightarrow>
      (\<exists>m. fit X_train y_train = Inr m \<and> model self' = Some m)) \<and>
   (\<exists>k. keyword_based_classification t = Inr k \<and> k \<in> set (map fst CATEGORY_KEYWORDS)) \<and>
   (fitted_on y_train m \<longrightarrow> pipeline_predict m x = Inr label \<longrightarrow>
      label \<in> set (map fst CATEGORY_KEYWORDS))"
proof (intro conjI)
  show "set (map fst TRAINING_DATA) = set (map fst CATEGORY_KEYWORDS)"
    by (simp only: training_keys category_keys)
  show "\<forall>(category, texts) \<in> set TRAINING_DATA. texts \<noteq> []"
    using training_texts by fastforce
  show "set y_train = set (map fst CATEGORY_KEYWORDS)" by (rule set_y_train)
  show "\<forall>self'. fst (train fit self w) = Inr self' \<longrightarrow>
      (\<exists>m. fit X_train y_train = Inr m \<and> model self' = Some m)"
    by (auto simp: train_def Let_def split: sum.splits)
  show "\<exists>k. keyword_based_classification t = Inr k \<and> k \<in> set (map fst CATEGORY_KEYWORDS)"
    by (rule keyword_label)
  show "fitted_on y_train m \<longrightarrow> pipeline_predict m x = Inr label \<longrightarrow>
      label \<in> set (map fst CATEGORY_KEYWORDS)"
    unfolding set_y_train [symmetric] fitted_on_def by blast
qed

text \<open>The two sets are the six categories, for a stub model of the label Noise.\<close>

theorem label_sets_agree_witness:
  "set y_train = {''Electricity'', ''Water Supply'', ''Road & Transport'', ''Cleanliness'',
                  ''Noise'', ''Other''} \<and>
   set (map fst TRAINING_DATA) = set y_train \<and>
   fitted_on y_train (stub_model ''Noise'' [1]) \<and>
   ''Noise'' \<in> set (map fst CATEGORY_KEYWORDS) \<and>
   model (classifier_with (Some (stub_model ''Noise'' [1]))) = Some (stub_model ''Noise'' [1])"
proof -
  have f: "fitted_on y_train (stub_model ''Noise'' [1])"
    by (simp add: fitted_on_def stub_model_def set_y_train category_keys)
  have p: "pipeline_predict (stub_model ''Noise'' [1]) ''loud music'' = Inr ''Noise''"
    by (simp add: stub_model_def)
  have e: "set (map fst CATEGORY_KEYWORDS) =
      {''Electricity'', ''Water Supply'', ''Road & Transport'', ''Cleanliness'', ''Noise'', ''Other''}"
    unfolding category_keys by simp
  show ?thesis
    using f p e
      label_sets_agree [where m = "stub_model ''Noise'' [1]" and x = "''loud music''"
        and label = "''Noise''" and t = "''loud music''" and self = "classifier_with None"
        and fit = "\<lambda>X y. Inr (stub_model ''Noise'' [1])"
        and w = "\<lparr>files = (\<lambda>p. None), writable = (\<lambda>p. True), stdout = []\<rparr>"]
    by (simp add: classifier_with_def)
qed

subsection \<open>C8: normalisation is idempotent\<close>

text \<open>
  C8. For every string, normalising the normalised text gives the normalised text:
  \<^verbatim>\<open>preprocess_text\<close> lower-cases, puts a space for every character that is no lower-case
  letter, digit or white space, and joins the words that white space separates by single
  spaces, so that its result is a fixed point.
\<close>

theorem preprocess_text_idempotent:
  "preprocess_text (preprocess_text s) = preprocess_text s"
  using preprocess_join [OF preprocess_words_ok [of s]]
  by (simp add: preprocess_text_def)

theorem preprocess_text_idempotent_witness:
  "preprocess_text ''  Street-Light   NOT working!! '' = ''street light not working'' \<and>
   preprocess_text (preprocess_text ''  Street-Light   NOT working!! '')
     = ''street light not working''"
proof -
  have "preprocess_text ''  Street-Light   NOT working!! '' = ''street light not working''"
    by code_simp
  then show ?thesis
    using preprocess_text_idempotent [of "''  Street-Light   NOT working!! ''"] by simp
qed

subsection \<open>C9: the keyword Speaker\<close>

text \<open>
  C9. For every string, the keyword Speaker of the category Noise adds nothing to the
  score of Noise: the text is lower-cased and the keywords are compared as they are, so
  Speaker, with its upper-case letter, is a substring of no lower-cased text, and the
  score of Noise is the count over the other 15 keywords.
\<close>

theorem Speaker_never_counts:
  "\<not> py_in ''Speaker'' (lower t) \<and>
   (\<exists>keywords. map_of CATEGORY_KEYWORDS ''Noise'' = Some keywords \<and>
      ''Speaker'' \<in> set keywords \<and>
      length (removeAll ''Speaker'' keywords) = 15 \<and>
      map_of (keyword_scores (lower t)) ''Noise''
        = Some (score (lower t) (removeAll ''Speaker'' keywords)))"
proof -
  have n: "\<not> py_in ''Speaker'' (lower t)" by (rule Speaker_never_in_lower)
  have "score (lower t) ks = score (lower t) (removeAll ''Speaker'' ks)" for ks
    using n by (induction ks) (auto simp: score_def)
  then show ?thesis
    using n by (simp add: map_of_keyword_scores noise_keywords)
qed

text \<open>The text speaker scores zero for Noise, and the keyword fallback answers Other.\<close>

theorem Speaker_never_counts_witness:
  "\<not> py_in ''Speaker'' (lower ''speaker'') \<and>
   map_of (keyword_scores (lower ''speaker'')) ''Noise'' = Some 0 \<and>
   keyword_based_classification ''speaker'' = Inr ''Other''"
proof -
  have s: "score (lower ''speaker'')
             (removeAll ''Speaker''
                [''noise'', ''sound'', ''loud'', ''disturbance'', ''Speaker'', ''music'',
                 ''construction'', ''pollution'', ''volume'', ''shouting'', ''party'', ''horn'',
                 ''siren'', ''barking'', ''disturb'', ''quiet'']) = 0"
    by code_simp
  have k: "keyword_based_classification ''speaker'' = Inr ''Other''" by code_simp
  show ?thesis
    using Speaker_never_counts [of "''speaker''"] s k by (auto simp: noise_keywords)
qed

subsection \<open>C10: the length is checked before the normalisation\<close>

text \<open>
  C10. The short-input check looks at the trimmed input, not at the normalised text. A
  string with at least 10 characters that are not white space, which the normalisation
  reduces to the empty string, is not answered by the short circuit: \<^verbatim>\<open>predict\<close> makes a
  call, with a model its first call is the statistical model on the empty text, and the
  answer is the one of the model when its greatest probability is 0.4 or more.
\<close>

theorem length_check_before_normalisation:
  assumes "10 \<le> length (filter (\<lambda>c. \<not> py_isspace c) t)"
    and "preprocess_text t = []"
  shows "snd (predict self t fb) \<noteq> [] \<and>
         (\<forall>m. model self = Some m \<longrightarrow>
            (\<exists>calls. snd (predict self t fb) = Model_predict [] # calls)) \<and>
         (\<forall>m prediction probabilities.
            model self = Some m \<longrightarrow> pipeline_predict m [] = Inr prediction \<longrightarrow>
            pipeline_predict_proba m [] = Inr probabilities \<longrightarrow> probabilities \<noteq> [] \<longrightarrow>
            0.4 \<le> Max (set probabilities) \<longrightarrow>
            fst (predict self t fb) = Inr (prediction, Max (set probabilities)))"
proof -
  have long: "\<not> (t = [] \<or> length (strip t) < 10)"
    using assms(1) strip_length [of t] by auto
  have a: "snd (predict self t fb) \<noteq> []"
    by (auto simp: predict_long [OF long] predict_try_def
          split: option.splits sum.splits prod.splits)
  have b: "\<exists>calls. snd (predict self t fb) = Model_predict [] # calls" if "model self = Some m" for m
    using that
    by (auto simp: predict_long [OF long] predict_try_def assms(2)
          split: option.splits sum.splits prod.splits)
  have c: "fst (predict self t fb) = Inr (prediction, Max (set probabilities))"
    if "model self = Some m" "pipeline_predict m [] = Inr prediction"
      "pipeline_predict_proba m [] = Inr probabilities" "probabilities \<noteq> []"
      "0.4 \<le> Max (set probabilities)" for m prediction probabilities
    using that(1,2,3,5)
    by (simp add: predict_long [OF long] predict_try_def assms(2) py_max_Max [OF that(4)])
  show ?thesis using a b c by blast
qed

text \<open>Ten exclamation marks, and a stub model of the label Noise.\<close>

theorem length_check_before_normalisation_witness:
  "preprocess_text ''!!!!!!!!!!'' = [] \<and>
   fst (predict (classifier_with (Some (stub_model ''Noise'' [0.9]))) ''!!!!!!!!!!'' True)
     = Inr (''Noise'', 0.9) \<and>
   (\<exists>calls. snd (predict (classifier_with (Some (stub_model ''Noise'' [0.9])))
                    ''!!!!!!!!!!'' True) = Model_predict [] # calls)"
proof -
  let ?t = "''!!!!!!!!!!''"
  have n: "10 \<le> length (filter (\<lambda>c. \<not> py_isspace c) ?t)" by code_simp
  have p: "preprocess_text ?t = []" by code_simp
  have m: "Max (set [0.9 :: real]) = 0.9" by simp
  show ?thesis
    using p m length_check_before_normalisation
      [where t = ?t and self = "classifier_with (Some (stub_model ''Noise'' [0.9]))"
         and fb = True, OF n p]
    by (simp add: classifier_with_def stub_model_def)
qed

end
